theory Spec2Isabelle
  imports Main
begin

section \<open>Data model\<close>

text \<open>
  The \<^verbatim>\<open>users\<close> table of \<^verbatim>\<open>convex/schema.ts\<close>. The five fields that
  \<^verbatim>\<open>upsertFromClerk\<close> writes form the record \<open>userAttributes\<close>; a stored document
  extends it with the system fields \<^verbatim>\<open>_id\<close> and \<^verbatim>\<open>_creationTime\<close> (written
  \<open>doc_id\<close> and \<open>creationTime\<close>) and with the optional \<^verbatim>\<open>posts\<close> array.
  An optional field (\<^verbatim>\<open>v.optional\<close>) is an \<open>option\<close>: \<open>None\<close> is the absent field.
\<close>

record userAttributes =
  email :: string
  clerkUserId :: string
  firstname :: "string option"
  lastname :: "string option"
  imageUrl :: "string option"

record user = userAttributes +
  doc_id :: nat
  creationTime :: nat
  posts :: "nat list option"

text \<open>
  The part of Clerk's \<^verbatim>\<open>UserJSON\<close> that the handler reads. A field of type
  \<^verbatim>\<open>string | null\<close> is a \<open>nullable\<close>; the field \<^verbatim>\<open>id\<close> is written \<open>id'\<close>.
\<close>

datatype 'a nullable = Null | NonNull 'a

record EmailAddressJSON =
  email_address :: string

record UserJSON =
  id' :: string
  email_addresses :: "EmailAddressJSON list"
  first_name :: "string nullable"
  last_name :: "string nullable"
  image_url :: "string nullable"

record UserIdentity =
  subject :: string

text \<open>
  What a handler can throw: the \<^verbatim>\<open>TypeError\<close> of reading a property of
  \<^verbatim>\<open>undefined\<close>, the error of \<^verbatim>\<open>unique()\<close> on more than one match, the error of
  \<^verbatim>\<open>patch\<close> and \<^verbatim>\<open>delete\<close> on a missing document, and \<^verbatim>\<open>new Error(msg)\<close>.
\<close>

datatype error = TypeError | NotUnique | DocNotFound | Error string

text \<open>
  The database holds the documents of the table and the counter from which the next
  \<^verbatim>\<open>_id\<close> and \<^verbatim>\<open>_creationTime\<close> are taken. The context of a handler is the database,
  the result of \<^verbatim>\<open>ctx.auth.getUserIdentity()\<close> and the lines written with
  \<^verbatim>\<open>console.warn\<close>.
\<close>

record Db =
  users :: "user list"
  next_id :: nat

record Ctx =
  db :: Db
  auth :: "UserIdentity option"
  console :: "string list"

section \<open>The database operations the handlers call\<close>

text \<open>\<^verbatim>\<open>a ?? undefined\<close>: a nullish value becomes an absent field.\<close>

fun nullish_undefined :: "'a nullable \<Rightarrow> 'a option" where
  "nullish_undefined Null = None"
| "nullish_undefined (NonNull x) = Some x"

text \<open>
  Modelled from the spec: the store's \<^verbatim>\<open>.unique()\<close>, whose code is the database
  client's and not in the sources. It returns null on no match and the document on one, and
  fails if more than one record matches.
\<close>

fun unique :: "'a list \<Rightarrow> error + 'a option" where
  "unique [] = Inr None"
| "unique [x] = Inr (Some x)"
| "unique (x # y # zs) = Inl NotUnique"

text \<open>
  Modelled from the spec: the indexed lookup
  \<^verbatim>\<open>.withIndex('byClerkUserId', q => q.eq("clerkUserId", c))\<close> of the store: the
  documents whose \<^verbatim>\<open>clerkUserId\<close> equals \<open>c\<close>.
\<close>

definition byClerkUserId :: "Db \<Rightarrow> string \<Rightarrow> user list" where
  "byClerkUserId d c = filter (\<lambda>u. clerkUserId u = c) (users d)"

text \<open>
  Modelled from the spec: the store's \<^verbatim>\<open>ctx.db.insert("users", a)\<close>, with the record
  identifier assigned by the store on creation. The new document has the fields of \<open>a\<close>, a fresh
  \<^verbatim>\<open>_id\<close> and the current \<^verbatim>\<open>_creationTime\<close>, and no \<^verbatim>\<open>posts\<close>.
\<close>

definition db_insert :: "Db \<Rightarrow> userAttributes \<Rightarrow> Db" where
  "db_insert d a =
     d\<lparr>users := users d @
          [\<lparr>email = email a, clerkUserId = clerkUserId a, firstname = firstname a,
            lastname = lastname a, imageUrl = imageUrl a,
            doc_id = next_id d, creationTime = next_id d, posts = None\<rparr>],
       next_id := Suc (next_id d)\<rparr>"

text \<open>
  Modelled from the spec: the store's \<^verbatim>\<open>ctx.db.patch(id, a)\<close>, a partial field
  overwrite: the fields of \<open>a\<close> replace those of the document (a field of \<open>a\<close> that is
  \<^verbatim>\<open>undefined\<close> is removed from it), and the fields that \<open>a\<close> does not have stay. It
  fails on an identifier that no document has.
\<close>

definition patch_doc :: "userAttributes \<Rightarrow> user \<Rightarrow> user" where
  "patch_doc a u =
     u\<lparr>email := email a, clerkUserId := clerkUserId a, firstname := firstname a,
       lastname := lastname a, imageUrl := imageUrl a\<rparr>"

definition db_patch :: "Db \<Rightarrow> nat \<Rightarrow> userAttributes \<Rightarrow> error + Db" where
  "db_patch d i a =
     (if i \<in> set (map doc_id (users d))
      then Inr (d\<lparr>users := map (\<lambda>u. if doc_id u = i then patch_doc a u else u) (users d)\<rparr>)
      else Inl DocNotFound)"

text \<open>
  Modelled from the spec: the store's \<^verbatim>\<open>ctx.db.delete(id)\<close>. It removes the document
  with that identifier and fails when there is none.
\<close>

definition db_delete :: "Db \<Rightarrow> nat \<Rightarrow> error + Db" where
  "db_delete d i =
     (if i \<in> set (map doc_id (users d))
      then Inr (d\<lparr>users := filter (\<lambda>u. doc_id u \<noteq> i) (users d)\<rparr>)
      else Inl DocNotFound)"

section \<open>The handlers\<close>

text \<open>
  The handlers of the users module, in the order of the source. A query of the table
  without an index is an ordered scan by \<^verbatim>\<open>_creationTime\<close>, ascending unless
  \<^verbatim>\<open>.order("desc")\<close> is given; \<^verbatim>\<open>.take(5)\<close> keeps the first five of the scan.
\<close>

definition getUsers :: "Ctx \<Rightarrow> user list" where
  "getUsers ctx = sort_key creationTime (users (db ctx))"

definition getRecentUsers :: "Ctx \<Rightarrow> user list" where
  "getRecentUsers ctx = take 5 (rev (sort_key creationTime (users (db ctx))))"

definition userByClerkUserId :: "Ctx \<Rightarrow> string \<Rightarrow> error + user option" where
  "userByClerkUserId ctx c = unique (byClerkUserId (db ctx) c)"

definition getCurrentUser :: "Ctx \<Rightarrow> error + user option" where
  "getCurrentUser ctx =
     (case auth ctx of
        None \<Rightarrow> Inr None
      | Some identity \<Rightarrow> userByClerkUserId ctx (subject identity))"

definition current :: "Ctx \<Rightarrow> error + user option" where
  "current ctx = getCurrentUser ctx"

definition getCurrentUserOrThrow :: "Ctx \<Rightarrow> error + user" where
  "getCurrentUserOrThrow ctx =
     (case getCurrentUser ctx of
        Inl e \<Rightarrow> Inl e
      | Inr None \<Rightarrow> Inl (Error ''Can't get current user'')
      | Inr (Some userRecord) \<Rightarrow> Inr userRecord)"

definition userAttributes_of :: "EmailAddressJSON \<Rightarrow> UserJSON \<Rightarrow> userAttributes" where
  "userAttributes_of e data =
     \<lparr>email = email_address e, clerkUserId = id' data,
      firstname = nullish_undefined (first_name data),
      lastname = nullish_undefined (last_name data),
      imageUrl = nullish_undefined (image_url data)\<rparr>"

definition upsertFromClerk :: "Ctx \<Rightarrow> UserJSON \<Rightarrow> error + Ctx" where
  "upsertFromClerk ctx data =
     (case email_addresses data of
        [] \<Rightarrow> Inl TypeError
      | e # _ \<Rightarrow>
          (case userByClerkUserId ctx (id' data) of
             Inl err \<Rightarrow> Inl err
           | Inr None \<Rightarrow> Inr (ctx\<lparr>db := db_insert (db ctx) (userAttributes_of e data)\<rparr>)
           | Inr (Some u) \<Rightarrow>
               (case db_patch (db ctx) (doc_id u) (userAttributes_of e data) of
                  Inl err \<Rightarrow> Inl err
                | Inr d \<Rightarrow> Inr (ctx\<lparr>db := d\<rparr>))))"

definition deleteFromClerk :: "Ctx \<Rightarrow> string \<Rightarrow> error + Ctx" where
  "deleteFromClerk ctx c =
     (case userByClerkUserId ctx c of
        Inl err \<Rightarrow> Inl err
      | Inr (Some u) \<Rightarrow>
          (case db_delete (db ctx) (doc_id u) of
             Inl err \<Rightarrow> Inl err
           | Inr d \<Rightarrow> Inr (ctx\<lparr>db := d\<rparr>))
      | Inr None \<Rightarrow>
          Inr (ctx\<lparr>console := console ctx @ [''Cannot delete user! No user with ID: '' @ c]\<rparr>))"

section \<open>Well-formed databases, the uniqueness invariant, serial execution\<close>

text \<open>
  What the database engine guarantees of its system fields, with the table held in the
  order of insertion: no two documents share an \<^verbatim>\<open>_id\<close>, a document inserted
  later has a later \<^verbatim>\<open>_creationTime\<close>, and both fields are below the counter.
\<close>

definition wf_db :: "Db \<Rightarrow> bool" where
  "wf_db d =
     (distinct (map doc_id (users d)) \<and> sorted_wrt (<) (map creationTime (users d)) \<and>
      list_all (\<lambda>u. doc_id u < next_id d \<and> creationTime u < next_id d) (users d))"

text \<open>The invariant of the data model: at most one user document per Clerk user id.\<close>

definition oneUserPerClerkId :: "Db \<Rightarrow> bool" where
  "oneUserPerClerkId d = distinct (map clerkUserId (users d))"

text \<open>
  The two webhook events and their serial execution: each event runs its mutation, and a
  mutation that throws commits nothing.
\<close>

datatype event = UserUpserted UserJSON | UserDeleted string

fun handle :: "Ctx \<Rightarrow> event \<Rightarrow> error + Ctx" where
  "handle ctx (UserUpserted data) = upsertFromClerk ctx data"
| "handle ctx (UserDeleted c) = deleteFromClerk ctx c"

definition commit :: "Ctx \<Rightarrow> event \<Rightarrow> Ctx" where
  "commit ctx ev = (case handle ctx ev of Inl err \<Rightarrow> ctx | Inr ctx' \<Rightarrow> ctx')"

definition run :: "Ctx \<Rightarrow> event list \<Rightarrow> Ctx" where
  "run ctx evs = foldl commit ctx evs"

section \<open>Example contexts and payloads\<close>

definition empty_ctx :: Ctx where
  "empty_ctx = \<lparr>db = \<lparr>users = [], next_id = 0\<rparr>, auth = None, console = []\<rparr>"

definition u1_created :: UserJSON where
  "u1_created =
     \<lparr>id' = ''u_1'', email_addresses = [\<lparr>email_address = ''a@example.com''\<rparr>],
      first_name = Null, last_name = Null, image_url = Null\<rparr>"

definition u1_updated :: UserJSON where
  "u1_updated =
     \<lparr>id' = ''u_1'',
      email_addresses = [\<lparr>email_address = ''a@example.com''\<rparr>, \<lparr>email_address = ''b@example.com''\<rparr>],
      first_name = NonNull ''Ann'', last_name = Null, image_url = Null\<rparr>"

definition u1_doc :: user where
  "u1_doc =
     \<lparr>email = ''a@example.com'', clerkUserId = ''u_1'', firstname = None, lastname = Some ''Lee'',
      imageUrl = None, doc_id = 0, creationTime = 0, posts = Some [7, 9]\<rparr>"

definition u2_doc :: user where
  "u2_doc =
     \<lparr>email = ''c@example.com'', clerkUserId = ''u_2'', firstname = None, lastname = None,
      imageUrl = None, doc_id = 1, creationTime = 1, posts = None\<rparr>"

definition two_users_ctx :: Ctx where
  "two_users_ctx =
     \<lparr>db = \<lparr>users = [u1_doc, u2_doc], next_id = 2\<rparr>, auth = None, console = []\<rparr>"

definition u1_inserted_ctx :: Ctx where
  "u1_inserted_ctx =
     \<lparr>db = \<lparr>users =
              [\<lparr>email = ''a@example.com'', clerkUserId = ''u_1'', firstname = None,
                lastname = None, imageUrl = None, doc_id = 0, creationTime = 0, posts = None\<rparr>],
            next_id = 1\<rparr>,
      auth = None, console = []\<rparr>"

definition u1_named_ctx :: Ctx where
  "u1_named_ctx =
     \<lparr>db = \<lparr>users =
              [\<lparr>email = ''a@example.com'', clerkUserId = ''u_1'', firstname = Some ''Ann'',
                lastname = None, imageUrl = None, doc_id = 0, creationTime = 0, posts = None\<rparr>],
            next_id = 1\<rparr>,
      auth = None, console = []\<rparr>"

definition u1_deleted_ctx :: Ctx where
  "u1_deleted_ctx = \<lparr>db = \<lparr>users = [], next_id = 1\<rparr>, auth = None, console = []\<rparr>"

definition u3_created :: UserJSON where
  "u3_created =
     \<lparr>id' = ''u_3'', email_addresses = [\<lparr>email_address = ''d@example.com''\<rparr>, \<lparr>email_address = ''e@example.com''\<rparr>],
      first_name = NonNull ''Cy'', last_name = Null,
      image_url = NonNull ''https://img.example.com/3.png''\<rparr>"

definition u1_named_doc :: user where
  "u1_named_doc =
     \<lparr>email = ''a@example.com'', clerkUserId = ''u_1'', firstname = Some ''Ann'', lastname = None,
      imageUrl = None, doc_id = 0, creationTime = 0, posts = Some [7, 9]\<rparr>"

definition two_users_named_ctx :: Ctx where
  "two_users_named_ctx =
     \<lparr>db = \<lparr>users = [u1_named_doc, u2_doc], next_id = 2\<rparr>, auth = None, console = []\<rparr>"

definition no_email :: UserJSON where
  "no_email =
     \<lparr>id' = ''u_1'', email_addresses = [], first_name = NonNull ''Ann'', last_name = Null,
      image_url = Null\<rparr>"

definition signed_in_ctx :: Ctx where
  "signed_in_ctx = two_users_ctx\<lparr>auth := Some \<lparr>subject = ''u_2''\<rparr>\<rparr>"

definition numbered_doc :: "nat \<Rightarrow> user" where
  "numbered_doc n =
     \<lparr>email = ''n@example.com'', clerkUserId = replicate n (CHR ''x''), firstname = None,
      lastname = None, imageUrl = None, doc_id = n, creationTime = n, posts = None\<rparr>"

definition six_users_ctx :: Ctx where
  "six_users_ctx =
     \<lparr>db = \<lparr>users = map numbered_doc [0, 1, 3, 4, 5, 6], next_id = 7\<rparr>,
      auth = None, console = []\<rparr>"

section \<open>Lookup, patch and well-formedness lemmas\<close>

lemma nullish_undefined_case:
  "nullish_undefined x = (case x of Null \<Rightarrow> None | NonNull s \<Rightarrow> Some s)"
  by (cases x) simp_all

lemma unique_Some_iff: "unique xs = Inr (Some x) \<longleftrightarrow> xs = [x]"
  by (cases xs rule: unique.cases) auto

lemma unique_None_iff: "unique xs = Inr None \<longleftrightarrow> xs = []"
  by (cases xs rule: unique.cases) auto

lemma unique_Inl: "unique xs = Inl e \<Longrightarrow> e = NotUnique"
  by (cases xs rule: unique.cases) auto

lemma filter_distinct_key:
  "distinct (map f xs) \<Longrightarrow> filter (\<lambda>u. f u = c) xs = [] \<or> (\<exists>x. filter (\<lambda>u. f u = c) xs = [x])"
proof (induction xs)
  case Nil thus ?case by simp
next
  case (Cons a xs)
  show ?case
  proof (cases "f a = c")
    case True
    from Cons.prems have "f a \<notin> f ` set xs" by simp
    with True have "\<forall>x \<in> set xs. f x \<noteq> c" by blast
    then have "filter (\<lambda>u. f u = c) xs = []"
      by (simp add: filter_empty_conv)
    with True show ?thesis by simp
  next
    case False with Cons show ?thesis by simp
  qed
qed

lemma same_id_same_doc:
  "distinct (map doc_id xs) \<Longrightarrow> u \<in> set xs \<Longrightarrow> v \<in> set xs \<Longrightarrow> doc_id v = doc_id u \<Longrightarrow> v = u"
  by (auto simp: distinct_map inj_on_def)

lemma filter_singleton_mem: "filter P xs = [u] \<Longrightarrow> u \<in> set xs \<and> P u"
proof -
  assume h: "filter P xs = [u]"
  have "u \<in> set (filter P xs)" by (simp add: h)
  then show ?thesis by simp
qed

lemma patch_map_keys:
  assumes "distinct (map doc_id xs)" "u \<in> set xs" "clerkUserId a = clerkUserId u"
  defines "g \<equiv> (\<lambda>v. if doc_id v = doc_id u then patch_doc a v else v)"
  shows "map doc_id (map g xs) = map doc_id xs"
    and "map creationTime (map g xs) = map creationTime xs"
    and "map clerkUserId (map g xs) = map clerkUserId xs"
    and "filter (\<lambda>v. clerkUserId v = c) (map g xs) = map g (filter (\<lambda>v. clerkUserId v = c) xs)"
proof -
  show "map doc_id (map g xs) = map doc_id xs"
    by (simp add: g_def patch_doc_def)
  show "map creationTime (map g xs) = map creationTime xs"
    by (simp add: g_def patch_doc_def)
  have k: "clerkUserId (g v) = clerkUserId v" if "v \<in> set xs" for v
    using same_id_same_doc [OF assms(1) assms(2) that] assms(3)
    by (auto simp: g_def patch_doc_def)
  then show "map clerkUserId (map g xs) = map clerkUserId xs"
    by simp
  have "filter ((\<lambda>v. clerkUserId v = c) \<circ> g) xs = filter (\<lambda>v. clerkUserId v = c) xs"
    by (rule filter_cong) (simp_all add: k)
  then show "filter (\<lambda>v. clerkUserId v = c) (map g xs) = map g (filter (\<lambda>v. clerkUserId v = c) xs)"
    by (simp add: filter_map)
qed


lemma db_patch_Inr:
  "u \<in> set (users d) \<Longrightarrow>
   db_patch d (doc_id u) a =
     Inr (d\<lparr>users := map (\<lambda>v. if doc_id v = doc_id u then patch_doc a v else v) (users d)\<rparr>)"
  by (simp add: db_patch_def)

lemma db_delete_Inr:
  "u \<in> set (users d) \<Longrightarrow>
   db_delete d (doc_id u) = Inr (d\<lparr>users := filter (\<lambda>v. doc_id v \<noteq> doc_id u) (users d)\<rparr>)"
  by (simp add: db_delete_def)

lemma lookup_Some_iff:
  "userByClerkUserId ctx c = Inr (Some u) \<longleftrightarrow> filter (\<lambda>v. clerkUserId v = c) (users (db ctx)) = [u]"
  by (simp add: userByClerkUserId_def byClerkUserId_def unique_Some_iff)

lemma lookup_None_iff:
  "userByClerkUserId ctx c = Inr None \<longleftrightarrow> (\<forall>v \<in> set (users (db ctx)). clerkUserId v \<noteq> c)"
  by (simp add: userByClerkUserId_def byClerkUserId_def unique_None_iff filter_empty_conv)

lemma upsert_patch:
  assumes wf: "wf_db (db ctx)"
    and look: "userByClerkUserId ctx (id' data) = Inr (Some u)"
    and em: "email_addresses data = e # es"
  shows "upsertFromClerk ctx data =
           Inr (ctx\<lparr>db := (db ctx)\<lparr>users :=
             map (\<lambda>v. if doc_id v = doc_id u then patch_doc (userAttributes_of e data) v else v)
               (users (db ctx))\<rparr>\<rparr>)"
    and "userByClerkUserId
           (ctx\<lparr>db := (db ctx)\<lparr>users :=
             map (\<lambda>v. if doc_id v = doc_id u then patch_doc (userAttributes_of e data) v else v)
               (users (db ctx))\<rparr>\<rparr>) (id' data) = Inr (Some (patch_doc (userAttributes_of e data) u))"
proof -
  from look have f: "filter (\<lambda>v. clerkUserId v = id' data) (users (db ctx)) = [u]"
    by (simp add: lookup_Some_iff)
  then have mem: "u \<in> set (users (db ctx))" and cu: "clerkUserId u = id' data"
    using filter_singleton_mem [OF f] by simp_all
  show "upsertFromClerk ctx data =
           Inr (ctx\<lparr>db := (db ctx)\<lparr>users :=
             map (\<lambda>v. if doc_id v = doc_id u then patch_doc (userAttributes_of e data) v else v)
               (users (db ctx))\<rparr>\<rparr>)"
    by (simp add: upsertFromClerk_def em look db_patch_Inr [OF mem])
  from wf have d: "distinct (map doc_id (users (db ctx)))" by (simp add: wf_db_def)
  have ca: "clerkUserId (userAttributes_of e data) = clerkUserId u"
    by (simp add: userAttributes_of_def cu)
  show "userByClerkUserId
           (ctx\<lparr>db := (db ctx)\<lparr>users :=
             map (\<lambda>v. if doc_id v = doc_id u then patch_doc (userAttributes_of e data) v else v)
               (users (db ctx))\<rparr>\<rparr>) (id' data) = Inr (Some (patch_doc (userAttributes_of e data) u))"
    by (simp add: lookup_Some_iff patch_map_keys(4) [OF d mem ca] f)
qed

lemma patch_same:
  assumes "distinct (map doc_id xs)" "u \<in> set xs" "patch_doc a u = u"
  shows "map (\<lambda>v. if doc_id v = doc_id u then patch_doc a v else v) xs = xs"
proof (rule map_idI)
  fix v assume "v \<in> set xs"
  from same_id_same_doc [OF assms(1) assms(2) this] assms(3)
  show "(if doc_id v = doc_id u then patch_doc a v else v) = v" by auto
qed

lemma patch_doc_idem: "patch_doc a (patch_doc a u) = patch_doc a u"
  by (simp add: patch_doc_def)

lemma wf_db_insert: "wf_db d \<Longrightarrow> wf_db (db_insert d a)"
  by (auto simp: wf_db_def db_insert_def list_all_iff sorted_wrt_append less_Suc_eq)

lemma wf_db_patch:
  assumes "wf_db d"
  shows "wf_db (d\<lparr>users := map (\<lambda>v. if doc_id v = i then patch_doc a v else v) (users d)\<rparr>)"
proof -
  let ?g = "\<lambda>v. if doc_id v = i then patch_doc a v else v"
  let ?d = "d\<lparr>users := map ?g (users d)\<rparr>"
  have u: "users ?d = map ?g (users d)" and n: "next_id ?d = next_id d"
    by simp_all
  have 1: "map doc_id (map ?g (users d)) = map doc_id (users d)"
    by (simp add: patch_doc_def)
  have 2: "map creationTime (map ?g (users d)) = map creationTime (users d)"
    by (simp add: patch_doc_def)
  have 3: "list_all (\<lambda>u. doc_id u < next_id d \<and> creationTime u < next_id d) (map ?g (users d))"
    using assms by (auto simp: wf_db_def list_all_iff patch_doc_def)
  from assms have "distinct (map doc_id (users d))"
    and "sorted_wrt (<) (map creationTime (users d))"
    by (simp_all add: wf_db_def)
  with 3 show ?thesis
    unfolding wf_db_def u n 1 2 by blast
qed

lemma wf_db_delete:
  assumes "wf_db d"
  shows "wf_db (d\<lparr>users := filter P (users d)\<rparr>)"
  using assms
  by (simp add: wf_db_def distinct_map_filter sorted_wrt_map sorted_wrt_filter list_all_iff)

section \<open>What the two mutations do\<close>

lemma upsert_cases:
  assumes "upsertFromClerk ctx data = Inr ctx1"
  obtains (inserted) e es where "email_addresses data = e # es"
      "userByClerkUserId ctx (id' data) = Inr None"
      "ctx1 = ctx\<lparr>db := db_insert (db ctx) (userAttributes_of e data)\<rparr>"
  | (patched) e es u where "email_addresses data = e # es"
      "userByClerkUserId ctx (id' data) = Inr (Some u)"
      "ctx1 = ctx\<lparr>db := (db ctx)\<lparr>users :=
             map (\<lambda>v. if doc_id v = doc_id u then patch_doc (userAttributes_of e data) v else v)
               (users (db ctx))\<rparr>\<rparr>"
  using assms
  by (auto simp: upsertFromClerk_def db_patch_def split: list.splits sum.splits option.splits if_splits)

lemma upsert_result:
  assumes wf: "wf_db (db ctx)" and up: "upsertFromClerk ctx data = Inr ctx1"
  shows "wf_db (db ctx1) \<and>
    (\<exists>e es u. email_addresses data = e # es \<and>
       filter (\<lambda>v. clerkUserId v = id' data) (users (db ctx1)) = [u] \<and>
       patch_doc (userAttributes_of e data) u = u)"
  using up
proof (cases rule: upsert_cases)
  case (inserted e es)
  from inserted(2) have f: "filter (\<lambda>v. clerkUserId v = id' data) (users (db ctx)) = []"
    by (simp add: lookup_None_iff filter_empty_conv)
  have "wf_db (db ctx1)"
    using wf_db_insert [OF wf] inserted(3) by simp
  moreover have "\<exists>u. filter (\<lambda>v. clerkUserId v = id' data) (users (db ctx1)) = [u] \<and>
       patch_doc (userAttributes_of e data) u = u"
    using f inserted(3) by (simp add: db_insert_def userAttributes_of_def patch_doc_def)
  ultimately show ?thesis using inserted(1) by blast
next
  case (patched e es u)
  have "wf_db (db ctx1)"
    using wf_db_patch [OF wf] patched(3) by simp
  moreover have "filter (\<lambda>v. clerkUserId v = id' data) (users (db ctx1)) =
      [patch_doc (userAttributes_of e data) u]"
    using upsert_patch(2) [OF wf patched(2) patched(1)] patched(3)
    by (simp add: lookup_Some_iff)
  ultimately show ?thesis using patched(1) patch_doc_idem by blast
qed

lemma upsert_again:
  assumes wf: "wf_db (db ctx)" and up: "upsertFromClerk ctx data = Inr ctx1"
  shows "upsertFromClerk ctx1 data = Inr ctx1"
proof -
  from upsert_result [OF wf up] obtain e es u where
    wf1: "wf_db (db ctx1)" and em: "email_addresses data = e # es"
    and f: "filter (\<lambda>v. clerkUserId v = id' data) (users (db ctx1)) = [u]"
    and same: "patch_doc (userAttributes_of e data) u = u"
    by blast
  from f have look: "userByClerkUserId ctx1 (id' data) = Inr (Some u)"
    by (simp add: lookup_Some_iff)
  from f have mem: "u \<in> set (users (db ctx1))"
    using filter_singleton_mem by fastforce
  from wf1 have d: "distinct (map doc_id (users (db ctx1)))"
    by (simp add: wf_db_def)
  show ?thesis
    by (simp add: upsert_patch(1) [OF wf1 look em] patch_same [OF d mem same])
qed

lemma upsert_succeeds:
  assumes "email_addresses data \<noteq> []" and "oneUserPerClerkId (db ctx)"
  shows "\<exists>ctx1. upsertFromClerk ctx data = Inr ctx1"
proof -
  from assms(2) have "filter (\<lambda>u. clerkUserId u = id' data) (users (db ctx)) = [] \<or>
     (\<exists>x. filter (\<lambda>u. clerkUserId u = id' data) (users (db ctx)) = [x])"
    unfolding oneUserPerClerkId_def by (rule filter_distinct_key)
  then show ?thesis
  proof
    assume "filter (\<lambda>u. clerkUserId u = id' data) (users (db ctx)) = []"
    then show ?thesis using assms(1)
      by (simp add: upsertFromClerk_def userByClerkUserId_def byClerkUserId_def split: list.splits)
  next
    assume "\<exists>x. filter (\<lambda>u. clerkUserId u = id' data) (users (db ctx)) = [x]"
    then obtain x where f: "filter (\<lambda>u. clerkUserId u = id' data) (users (db ctx)) = [x]" ..
    then have "x \<in> set (users (db ctx))" using filter_singleton_mem by fastforce
    then show ?thesis using assms(1) f
      by (simp add: upsertFromClerk_def userByClerkUserId_def byClerkUserId_def db_patch_def
          split: list.splits)
  qed
qed

lemma delete_existing:
  assumes "userByClerkUserId ctx c = Inr (Some u)"
  shows "deleteFromClerk ctx c =
           Inr (ctx\<lparr>db := (db ctx)\<lparr>users := filter (\<lambda>v. doc_id v \<noteq> doc_id u) (users (db ctx))\<rparr>\<rparr>)"
    and "userByClerkUserId
           (ctx\<lparr>db := (db ctx)\<lparr>users := filter (\<lambda>v. doc_id v \<noteq> doc_id u) (users (db ctx))\<rparr>\<rparr>) c
         = Inr None"
proof -
  from assms have f: "filter (\<lambda>v. clerkUserId v = c) (users (db ctx)) = [u]"
    by (simp add: lookup_Some_iff)
  then have mem: "u \<in> set (users (db ctx))"
    using filter_singleton_mem by fastforce
  show "deleteFromClerk ctx c =
           Inr (ctx\<lparr>db := (db ctx)\<lparr>users := filter (\<lambda>v. doc_id v \<noteq> doc_id u) (users (db ctx))\<rparr>\<rparr>)"
    by (simp add: deleteFromClerk_def assms db_delete_Inr [OF mem])
  have "v = u" if "v \<in> set (users (db ctx))" "clerkUserId v = c" for v
  proof -
    from that have "v \<in> set (filter (\<lambda>v. clerkUserId v = c) (users (db ctx)))" by simp
    then show ?thesis by (simp add: f)
  qed
  then show "userByClerkUserId
           (ctx\<lparr>db := (db ctx)\<lparr>users := filter (\<lambda>v. doc_id v \<noteq> doc_id u) (users (db ctx))\<rparr>\<rparr>) c
         = Inr None"
    by (auto simp: lookup_None_iff)
qed

lemma upsert_preserves:
  assumes wf: "wf_db (db ctx)" and one: "oneUserPerClerkId (db ctx)"
    and up: "upsertFromClerk ctx data = Inr ctx1"
  shows "wf_db (db ctx1) \<and> oneUserPerClerkId (db ctx1)"
  using up
proof (cases rule: upsert_cases)
  case (inserted e es)
  from inserted(2) have "id' data \<notin> set (map clerkUserId (users (db ctx)))"
    by (auto simp: lookup_None_iff)
  with one inserted(3) have "oneUserPerClerkId (db ctx1)"
    by (simp add: oneUserPerClerkId_def db_insert_def userAttributes_of_def)
  with upsert_result [OF wf up] show ?thesis by simp
next
  case (patched e es u)
  from patched(2) have f: "filter (\<lambda>v. clerkUserId v = id' data) (users (db ctx)) = [u]"
    by (simp add: lookup_Some_iff)
  have mem: "u \<in> set (users (db ctx))" and cu: "clerkUserId u = id' data"
    using filter_singleton_mem [OF f] by simp_all
  from wf have d: "distinct (map doc_id (users (db ctx)))" by (simp add: wf_db_def)
  have ca: "clerkUserId (userAttributes_of e data) = clerkUserId u"
    by (simp add: userAttributes_of_def cu)
  have "users (db ctx1) =
      map (\<lambda>v. if doc_id v = doc_id u then patch_doc (userAttributes_of e data) v else v)
        (users (db ctx))"
    by (simp add: patched(3))
  then have "map clerkUserId (users (db ctx1)) = map clerkUserId (users (db ctx))"
    by (simp only: patch_map_keys(3) [OF d mem ca])
  with one have "oneUserPerClerkId (db ctx1)"
    by (simp add: oneUserPerClerkId_def)
  with upsert_result [OF wf up] show ?thesis by simp
qed

lemma delete_preserves:
  assumes wf: "wf_db (db ctx)" and one: "oneUserPerClerkId (db ctx)"
    and del: "deleteFromClerk ctx c = Inr ctx1"
  shows "wf_db (db ctx1) \<and> oneUserPerClerkId (db ctx1)"
proof (cases "userByClerkUserId ctx c")
  case (Inl e)
  with del show ?thesis by (simp add: deleteFromClerk_def)
next
  case (Inr r)
  show ?thesis
  proof (cases r)
    case None
    with Inr del wf one show ?thesis by (auto simp: deleteFromClerk_def)
  next
    case (Some u)
    with Inr have "userByClerkUserId ctx c = Inr (Some u)" by simp
    from delete_existing(1) [OF this] del
    have "ctx1 = ctx\<lparr>db := (db ctx)\<lparr>users := filter (\<lambda>v. doc_id v \<noteq> doc_id u) (users (db ctx))\<rparr>\<rparr>"
      by simp
    with wf_db_delete [OF wf] one show ?thesis
      by (simp add: oneUserPerClerkId_def distinct_map_filter)
  qed
qed

lemma commit_preserves:
  assumes "wf_db (db ctx)" and "oneUserPerClerkId (db ctx)"
  shows "wf_db (db (commit ctx ev)) \<and> oneUserPerClerkId (db (commit ctx ev))"
proof (cases "handle ctx ev")
  case (Inl e)
  with assms show ?thesis by (simp add: commit_def)
next
  case (Inr ctx1)
  then have "wf_db (db ctx1) \<and> oneUserPerClerkId (db ctx1)"
    using upsert_preserves [OF assms] delete_preserves [OF assms] by (cases ev) simp_all
  with Inr show ?thesis by (simp add: commit_def)
qed

lemma wf_sort_id: "wf_db d \<Longrightarrow> sort_key creationTime (users d) = users d"
  by (simp add: wf_db_def sort_key_id_if_sorted strict_sorted_imp_sorted)

lemma lookup_total:
  assumes "oneUserPerClerkId (db ctx)"
  shows "userByClerkUserId ctx c = Inr None \<or>
         (\<exists>u. userByClerkUserId ctx c = Inr (Some u))"
  using filter_distinct_key [of clerkUserId "users (db ctx)" c] assms
  by (auto simp: oneUserPerClerkId_def userByClerkUserId_def byClerkUserId_def)

lemma lookup_the_match:
  assumes "oneUserPerClerkId (db ctx)" and "u \<in> set (users (db ctx))" and "clerkUserId u = c"
  shows "userByClerkUserId ctx c = Inr (Some u)"
proof -
  from assms(2,3) have m: "u \<in> set (filter (\<lambda>v. clerkUserId v = c) (users (db ctx)))" by simp
  from filter_distinct_key [of clerkUserId "users (db ctx)" c] assms(1)
  consider "filter (\<lambda>v. clerkUserId v = c) (users (db ctx)) = []"
    | x where "filter (\<lambda>v. clerkUserId v = c) (users (db ctx)) = [x]"
    by (auto simp: oneUserPerClerkId_def)
  then show ?thesis
  proof cases
    case 1 with m show ?thesis by simp
  next
    case 2 with m show ?thesis by (simp add: lookup_Some_iff)
  qed
qed

section \<open>The example scenario of the specification\<close>

text \<open>
  An insert event for \<^verbatim>\<open>u_1\<close> with no name, an update event that adds the first name,
  and a delete event, each run on the context the one before left.
\<close>

lemma scenario_insert: "upsertFromClerk empty_ctx u1_created = Inr u1_inserted_ctx"
  by (simp add: upsertFromClerk_def userByClerkUserId_def byClerkUserId_def db_insert_def
      userAttributes_of_def empty_ctx_def u1_created_def u1_inserted_ctx_def)

lemma scenario_update: "upsertFromClerk u1_inserted_ctx u1_updated = Inr u1_named_ctx"
  by (simp add: upsertFromClerk_def userByClerkUserId_def byClerkUserId_def db_patch_def
      patch_doc_def userAttributes_of_def u1_updated_def u1_inserted_ctx_def u1_named_ctx_def)

lemma scenario_delete: "deleteFromClerk u1_named_ctx ''u_1'' = Inr u1_deleted_ctx"
  by (simp add: deleteFromClerk_def userByClerkUserId_def byClerkUserId_def db_delete_def
      u1_named_ctx_def u1_deleted_ctx_def)

lemma scenario_lookup: "userByClerkUserId u1_deleted_ctx ''u_1'' = Inr None"
  by (simp add: userByClerkUserId_def byClerkUserId_def u1_deleted_ctx_def)

lemma scenario_run:
  "run empty_ctx [UserUpserted u1_created, UserUpserted u1_updated, UserDeleted ''u_1''] =
     u1_deleted_ctx"
  by (simp add: run_def commit_def scenario_insert scenario_update scenario_delete)

section \<open>Claims about the sync mutations\<close>

text \<open>
  C1. For a payload with a first email address whose Clerk id has no user document,
  \<open>upsertFromClerk\<close> succeeds and appends one document to the table, and
  \<open>userByClerkUserId\<close> on the same id then returns that document. Its email is the first
  listed address, its \<open>clerkUserId\<close> is the payload's id, and each of \<open>firstname\<close>,
  \<open>lastname\<close> and \<open>imageUrl\<close> holds the payload's string where the payload has one and
  is absent where the payload has none.
\<close>

theorem upsertFromClerk_new_user:
  assumes "\<forall>u \<in> set (users (db ctx)). clerkUserId u \<noteq> id' data"
    and "email_addresses data = e # es"
  shows "\<exists>ctx' u. upsertFromClerk ctx data = Inr ctx' \<and>
           userByClerkUserId ctx' (id' data) = Inr (Some u) \<and>
           users (db ctx') = users (db ctx) @ [u] \<and>
           email u = email_address e \<and> clerkUserId u = id' data \<and>
           firstname u = (case first_name data of Null \<Rightarrow> None | NonNull s \<Rightarrow> Some s) \<and>
           lastname u = (case last_name data of Null \<Rightarrow> None | NonNull s \<Rightarrow> Some s) \<and>
           imageUrl u = (case image_url data of Null \<Rightarrow> None | NonNull s \<Rightarrow> Some s) \<and>
           posts u = None"
proof -
  from assms(1) have f: "filter (\<lambda>u. clerkUserId u = id' data) (users (db ctx)) = []"
    by (auto simp: filter_empty_conv)
  show ?thesis
    using assms(2) f
    by (simp add: upsertFromClerk_def userByClerkUserId_def byClerkUserId_def db_insert_def
        userAttributes_of_def nullish_undefined_case)
qed

theorem upsertFromClerk_new_user_witness:
  "''u_3'' \<notin> set (map clerkUserId (users (db two_users_ctx))) \<and>
   email_addresses u3_created =
     \<lparr>email_address = ''d@example.com''\<rparr> # [\<lparr>email_address = ''e@example.com''\<rparr>] \<and>
   (\<exists>ctx' u. upsertFromClerk two_users_ctx u3_created = Inr ctx' \<and>
      userByClerkUserId ctx' ''u_3'' = Inr (Some u) \<and>
      users (db ctx') = [u1_doc, u2_doc, u] \<and>
      email u = ''d@example.com'' \<and> clerkUserId u = ''u_3'' \<and>
      firstname u = Some ''Cy'' \<and> lastname u = None \<and>
      imageUrl u = Some ''https://img.example.com/3.png'' \<and> posts u = None)"
proof -
  have 0: "''u_3'' \<notin> set (map clerkUserId (users (db two_users_ctx)))"
    by (simp add: two_users_ctx_def u1_doc_def u2_doc_def)
  have 1: "\<forall>u \<in> set (users (db two_users_ctx)). clerkUserId u \<noteq> id' u3_created"
    by (simp add: two_users_ctx_def u1_doc_def u2_doc_def u3_created_def)
  have 2: "email_addresses u3_created =
     \<lparr>email_address = ''d@example.com''\<rparr> # [\<lparr>email_address = ''e@example.com''\<rparr>]"
    by (simp add: u3_created_def)
  have 3: "users (db two_users_ctx) = [u1_doc, u2_doc]"
    by (simp add: two_users_ctx_def)
  have 4: "id' u3_created = ''u_3''" "first_name u3_created = NonNull ''Cy''"
    "last_name u3_created = Null"
    "image_url u3_created = NonNull ''https://img.example.com/3.png''"
    by (simp_all add: u3_created_def)
  from upsertFromClerk_new_user [OF 1 2]
  have "\<exists>ctx' u. upsertFromClerk two_users_ctx u3_created = Inr ctx' \<and>
      userByClerkUserId ctx' ''u_3'' = Inr (Some u) \<and>
      users (db ctx') = [u1_doc, u2_doc, u] \<and>
      email u = ''d@example.com'' \<and> clerkUserId u = ''u_3'' \<and>
      firstname u = Some ''Cy'' \<and> lastname u = None \<and>
      imageUrl u = Some ''https://img.example.com/3.png'' \<and> posts u = None"
    by (simp add: 3 4)
  with 0 2 show ?thesis by blast
qed

text \<open>
  C2. When the Clerk id of a payload (with a first email address) has a user document
  \<open>u\<close>, \<open>upsertFromClerk\<close> succeeds and the document found afterwards is \<open>u\<close> with
  exactly \<open>email\<close>, \<open>clerkUserId\<close>, \<open>firstname\<close>, \<open>lastname\<close> and \<open>imageUrl\<close>
  overwritten from the payload: its \<open>posts\<close> (and its system fields) are those of \<open>u\<close>, and
  every other document of the table is as before.
\<close>

theorem upsertFromClerk_existing_user:
  assumes "wf_db (db ctx)"
    and "userByClerkUserId ctx (id' data) = Inr (Some u)"
    and "email_addresses data = e # es"
  shows "\<exists>ctx' u'. upsertFromClerk ctx data = Inr ctx' \<and>
           userByClerkUserId ctx' (id' data) = Inr (Some u') \<and>
           u' = u\<lparr>email := email_address e, clerkUserId := id' data,
                  firstname := nullish_undefined (first_name data),
                  lastname := nullish_undefined (last_name data),
                  imageUrl := nullish_undefined (image_url data)\<rparr> \<and>
           posts u' = posts u \<and> doc_id u' = doc_id u \<and> creationTime u' = creationTime u \<and>
           users (db ctx') = map (\<lambda>v. if v = u then u' else v) (users (db ctx))"
proof -
  let ?a = "userAttributes_of e data"
  let ?g = "\<lambda>v. if doc_id v = doc_id u then patch_doc ?a v else v"
  let ?ctx = "ctx\<lparr>db := (db ctx)\<lparr>users := map ?g (users (db ctx))\<rparr>\<rparr>"
  have up: "upsertFromClerk ctx data = Inr ?ctx"
    and look: "userByClerkUserId ?ctx (id' data) = Inr (Some (patch_doc ?a u))"
    using upsert_patch [OF assms] by simp_all
  from assms(2) have "filter (\<lambda>v. clerkUserId v = id' data) (users (db ctx)) = [u]"
    by (simp add: lookup_Some_iff)
  then have mem: "u \<in> set (users (db ctx))"
    using filter_singleton_mem by fastforce
  from assms(1) have d: "distinct (map doc_id (users (db ctx)))"
    by (simp add: wf_db_def)
  have "map ?g (users (db ctx)) = map (\<lambda>v. if v = u then patch_doc ?a u else v) (users (db ctx))"
  proof (rule map_cong [OF refl])
    fix v assume "v \<in> set (users (db ctx))"
    from same_id_same_doc [OF d mem this]
    show "?g v = (if v = u then patch_doc ?a u else v)" by auto
  qed
  then have frame: "users (db ?ctx) = map (\<lambda>v. if v = u then patch_doc ?a u else v) (users (db ctx))"
    by simp
  have eq: "patch_doc ?a u =
      u\<lparr>email := email_address e, clerkUserId := id' data,
        firstname := nullish_undefined (first_name data),
        lastname := nullish_undefined (last_name data),
        imageUrl := nullish_undefined (image_url data)\<rparr>"
    by (simp add: patch_doc_def userAttributes_of_def)
  have sys: "posts (patch_doc ?a u) = posts u" "doc_id (patch_doc ?a u) = doc_id u"
    "creationTime (patch_doc ?a u) = creationTime u"
    by (simp_all add: patch_doc_def)
  from up look eq sys frame show ?thesis by blast
qed

theorem upsertFromClerk_existing_user_witness:
  "wf_db (db two_users_ctx) \<and>
   userByClerkUserId two_users_ctx (id' u1_updated) = Inr (Some u1_doc) \<and>
   email_addresses u1_updated = \<lparr>email_address = ''a@example.com''\<rparr> # [\<lparr>email_address = ''b@example.com''\<rparr>] \<and>
   (\<exists>ctx' u'. upsertFromClerk two_users_ctx u1_updated = Inr ctx' \<and>
      userByClerkUserId ctx' ''u_1'' = Inr (Some u') \<and>
      u' = u1_doc\<lparr>email := ''a@example.com'', clerkUserId := ''u_1'', firstname := Some ''Ann'',
                    lastname := None, imageUrl := None\<rparr> \<and>
      posts u' = Some [7, 9] \<and> users (db ctx') = [u', u2_doc])"
proof -
  have 1: "wf_db (db two_users_ctx)"
    by (simp add: wf_db_def two_users_ctx_def u1_doc_def u2_doc_def)
  have 2: "userByClerkUserId two_users_ctx (id' u1_updated) = Inr (Some u1_doc)"
    by (simp add: userByClerkUserId_def byClerkUserId_def two_users_ctx_def u1_doc_def u2_doc_def
        u1_updated_def)
  have 3: "email_addresses u1_updated =
      \<lparr>email_address = ''a@example.com''\<rparr> # [\<lparr>email_address = ''b@example.com''\<rparr>]"
    by (simp add: u1_updated_def)
  have 4: "u2_doc \<noteq> u1_doc"
    by (simp add: u1_doc_def u2_doc_def)
  from upsertFromClerk_existing_user [OF 1 2 3] obtain ctx' u' where
    r: "upsertFromClerk two_users_ctx u1_updated = Inr ctx'"
      "userByClerkUserId ctx' (id' u1_updated) = Inr (Some u')"
      "u' = u1_doc\<lparr>email := email_address \<lparr>email_address = ''a@example.com''\<rparr>,
              clerkUserId := id' u1_updated,
              firstname := nullish_undefined (first_name u1_updated),
              lastname := nullish_undefined (last_name u1_updated),
              imageUrl := nullish_undefined (image_url u1_updated)\<rparr>"
      "posts u' = posts u1_doc"
      "users (db ctx') = map (\<lambda>v. if v = u1_doc then u' else v) (users (db two_users_ctx))"
    by blast
  have a: "userByClerkUserId ctx' ''u_1'' = Inr (Some u')"
    using r(2) by (simp add: u1_updated_def)
  have b: "u' = u1_doc\<lparr>email := ''a@example.com'', clerkUserId := ''u_1'', firstname := Some ''Ann'',
                    lastname := None, imageUrl := None\<rparr>"
    using r(3) by (simp add: u1_updated_def)
  have c: "posts u' = Some [7, 9]"
    using r(4) by (simp add: u1_doc_def)
  have d: "users (db ctx') = [u', u2_doc]"
    using r(5) 4 by (simp add: two_users_ctx_def)
  from 1 2 3 r(1) a b c d show ?thesis by blast
qed

text \<open>
  C3. \<open>upsertFromClerk\<close> is idempotent. On every well-formed database and for every
  payload, running it twice in sequence gives what running it once gives: the same context
  (so the same table and the same visible document), or the same error. For a payload with
  an email address and a table with at most one document per Clerk id, the first run
  succeeds, the second returns the context of the first, and the lookup finds a document.
\<close>

theorem upsertFromClerk_idempotent:
  assumes "wf_db (db ctx)"
  shows "(case upsertFromClerk ctx data of Inl err \<Rightarrow> Inl err | Inr ctx1 \<Rightarrow> upsertFromClerk ctx1 data)
           = upsertFromClerk ctx data \<and>
         (email_addresses data \<noteq> [] \<and> oneUserPerClerkId (db ctx) \<longrightarrow>
            (\<exists>ctx1 u. upsertFromClerk ctx data = Inr ctx1 \<and> upsertFromClerk ctx1 data = Inr ctx1 \<and>
               userByClerkUserId ctx1 (id' data) = Inr (Some u)))"
proof (intro conjI impI)
  show "(case upsertFromClerk ctx data of Inl err \<Rightarrow> Inl err | Inr ctx1 \<Rightarrow> upsertFromClerk ctx1 data)
           = upsertFromClerk ctx data"
    using upsert_again [OF assms] by (cases "upsertFromClerk ctx data") simp_all
next
  assume "email_addresses data \<noteq> [] \<and> oneUserPerClerkId (db ctx)"
  then obtain ctx1 where up: "upsertFromClerk ctx data = Inr ctx1"
    using upsert_succeeds by blast
  from upsert_result [OF assms up] have "\<exists>u. userByClerkUserId ctx1 (id' data) = Inr (Some u)"
    by (auto simp: lookup_Some_iff)
  with up upsert_again [OF assms up]
  show "\<exists>ctx1 u. upsertFromClerk ctx data = Inr ctx1 \<and> upsertFromClerk ctx1 data = Inr ctx1 \<and>
               userByClerkUserId ctx1 (id' data) = Inr (Some u)"
    by blast
qed

theorem upsertFromClerk_idempotent_witness:
  "wf_db (db two_users_ctx) \<and> email_addresses u1_updated \<noteq> [] \<and>
   oneUserPerClerkId (db two_users_ctx) \<and>
   (\<exists>ctx1 u. upsertFromClerk two_users_ctx u1_updated = Inr ctx1 \<and>
      upsertFromClerk ctx1 u1_updated = Inr ctx1 \<and>
      userByClerkUserId ctx1 (id' u1_updated) = Inr (Some u))"
proof -
  have 1: "wf_db (db two_users_ctx)"
    by (simp add: wf_db_def two_users_ctx_def u1_doc_def u2_doc_def)
  have 2: "email_addresses u1_updated \<noteq> []"
    by (simp add: u1_updated_def)
  have 3: "oneUserPerClerkId (db two_users_ctx)"
    by (simp add: oneUserPerClerkId_def two_users_ctx_def u1_doc_def u2_doc_def)
  from upsertFromClerk_idempotent [OF 1, of u1_updated] 1 2 3 show ?thesis by blast
qed

text \<open>
  C4. After a successful \<open>upsertFromClerk\<close> for a Clerk id (on a well-formed database)
  the table holds a document \<open>u\<close> that the lookup by that id returns. \<open>deleteFromClerk\<close>
  for the id then succeeds and removes exactly \<open>u\<close>: the table is the one before without
  \<open>u\<close>, nothing else of the context changes, no document of the table has the id any
  more, and \<open>userByClerkUserId\<close> returns null.
\<close>

theorem deleteFromClerk_after_upsert:
  assumes "wf_db (db ctx)" and "upsertFromClerk ctx data = Inr ctx1"
  shows "\<exists>u ctx2. userByClerkUserId ctx1 (id' data) = Inr (Some u) \<and>
           u \<in> set (users (db ctx1)) \<and>
           deleteFromClerk ctx1 (id' data) = Inr ctx2 \<and>
           ctx2 = ctx1\<lparr>db := (db ctx1)\<lparr>users := filter (\<lambda>v. v \<noteq> u) (users (db ctx1))\<rparr>\<rparr> \<and>
           users (db ctx2) = filter (\<lambda>v. doc_id v \<noteq> doc_id u) (users (db ctx1)) \<and>
           u \<notin> set (users (db ctx2)) \<and>
           (\<forall>v \<in> set (users (db ctx2)). clerkUserId v \<noteq> id' data) \<and>
           userByClerkUserId ctx2 (id' data) = Inr None"
proof -
  from upsert_result [OF assms] obtain u where
    wf1: "wf_db (db ctx1)"
    and f: "filter (\<lambda>v. clerkUserId v = id' data) (users (db ctx1)) = [u]"
    by blast
  from f have look: "userByClerkUserId ctx1 (id' data) = Inr (Some u)"
    by (simp add: lookup_Some_iff)
  from f have mem: "u \<in> set (users (db ctx1))"
    using filter_singleton_mem by fastforce
  from wf1 have d: "distinct (map doc_id (users (db ctx1)))"
    by (simp add: wf_db_def)
  let ?ys = "filter (\<lambda>v. doc_id v \<noteq> doc_id u) (users (db ctx1))"
  let ?ctx2 = "ctx1\<lparr>db := (db ctx1)\<lparr>users := ?ys\<rparr>\<rparr>"
  have del: "deleteFromClerk ctx1 (id' data) = Inr ?ctx2"
    and none: "userByClerkUserId ?ctx2 (id' data) = Inr None"
    using delete_existing [OF look] by simp_all
  have same: "?ys = filter (\<lambda>v. v \<noteq> u) (users (db ctx1))"
  proof (rule filter_cong [OF refl])
    fix v assume "v \<in> set (users (db ctx1))"
    from same_id_same_doc [OF d mem this]
    show "(doc_id v \<noteq> doc_id u) = (v \<noteq> u)" by auto
  qed
  have us: "users (db ?ctx2) = ?ys" by simp
  have gone: "u \<notin> set (users (db ?ctx2))" by simp
  from none have no: "\<forall>v \<in> set (users (db ?ctx2)). clerkUserId v \<noteq> id' data"
    by (simp only: lookup_None_iff)
  have eq: "?ctx2 = ctx1\<lparr>db := (db ctx1)\<lparr>users := filter (\<lambda>v. v \<noteq> u) (users (db ctx1))\<rparr>\<rparr>"
    by (simp only: same)
  from look mem del eq us gone no none show ?thesis by blast
qed

theorem deleteFromClerk_after_upsert_witness:
  "wf_db (db two_users_ctx) \<and>
   upsertFromClerk two_users_ctx u1_updated = Inr two_users_named_ctx \<and>
   userByClerkUserId two_users_named_ctx ''u_1'' = Inr (Some u1_named_doc) \<and>
   (\<exists>ctx2. deleteFromClerk two_users_named_ctx ''u_1'' = Inr ctx2 \<and>
      users (db ctx2) = [u2_doc] \<and>
      userByClerkUserId ctx2 ''u_1'' = Inr None)"
proof -
  have 1: "wf_db (db two_users_ctx)"
    by (simp add: wf_db_def two_users_ctx_def u1_doc_def u2_doc_def)
  have 2: "upsertFromClerk two_users_ctx u1_updated = Inr two_users_named_ctx"
    by (simp add: upsertFromClerk_def userByClerkUserId_def byClerkUserId_def db_patch_def
        patch_doc_def userAttributes_of_def two_users_ctx_def two_users_named_ctx_def
        u1_doc_def u2_doc_def u1_named_doc_def u1_updated_def)
  have 3: "id' u1_updated = ''u_1''"
    by (simp add: u1_updated_def)
  have 4: "userByClerkUserId two_users_named_ctx ''u_1'' = Inr (Some u1_named_doc)"
    by (simp add: userByClerkUserId_def byClerkUserId_def two_users_named_ctx_def
        u1_named_doc_def u2_doc_def)
  have 5: "filter (\<lambda>v. v \<noteq> u1_named_doc) (users (db two_users_named_ctx)) = [u2_doc]"
    by (simp add: two_users_named_ctx_def u1_named_doc_def u2_doc_def)
  from deleteFromClerk_after_upsert [OF 1 2] obtain u ctx2 where
    r: "userByClerkUserId two_users_named_ctx ''u_1'' = Inr (Some u)"
      "deleteFromClerk two_users_named_ctx ''u_1'' = Inr ctx2"
      "ctx2 = two_users_named_ctx\<lparr>db := (db two_users_named_ctx)\<lparr>users :=
         filter (\<lambda>v. v \<noteq> u) (users (db two_users_named_ctx))\<rparr>\<rparr>"
      "userByClerkUserId ctx2 ''u_1'' = Inr None"
    unfolding 3 by blast
  from r(1) 4 have "u = u1_named_doc" by simp
  with r(3) 5 have "users (db ctx2) = [u2_doc]" by simp
  with 1 2 4 r(2) r(4) show ?thesis by blast
qed

text \<open>
  C5. For a Clerk id with no user document, \<open>deleteFromClerk\<close> raises no error and
  changes nothing but the console, to which it adds one warning: the database is as before.
\<close>

theorem deleteFromClerk_unknown_user:
  assumes "\<forall>u \<in> set (users (db ctx)). clerkUserId u \<noteq> c"
  shows "deleteFromClerk ctx c =
           Inr (ctx\<lparr>console := console ctx @ [''Cannot delete user! No user with ID: '' @ c]\<rparr>)"
proof -
  from assms have "userByClerkUserId ctx c = Inr None"
    by (simp add: lookup_None_iff)
  then show ?thesis by (simp add: deleteFromClerk_def)
qed

theorem deleteFromClerk_unknown_user_witness:
  "''u_3'' \<notin> set (map clerkUserId (users (db two_users_ctx))) \<and>
   deleteFromClerk two_users_ctx ''u_3'' =
     Inr (two_users_ctx\<lparr>console := [''Cannot delete user! No user with ID: u_3'']\<rparr>) \<and>
   db (two_users_ctx\<lparr>console := [''Cannot delete user! No user with ID: u_3'']\<rparr>) = db two_users_ctx"
proof -
  have 0: "''u_3'' \<notin> set (map clerkUserId (users (db two_users_ctx)))"
    by (simp add: two_users_ctx_def u1_doc_def u2_doc_def)
  have 1: "\<forall>u \<in> set (users (db two_users_ctx)). clerkUserId u \<noteq> ''u_3''"
    by (simp add: two_users_ctx_def u1_doc_def u2_doc_def)
  have 2: "console two_users_ctx = []"
    by (simp add: two_users_ctx_def)
  from deleteFromClerk_unknown_user [OF 1] 0 show ?thesis
    by (simp add: 2)
qed

text \<open>
  C9. Serial execution preserves the invariant: from a well-formed database with at most
  one user document per Clerk id, every sequence of \<open>upsertFromClerk\<close> and
  \<open>deleteFromClerk\<close> events leads to a database with at most one user document per Clerk
  id (and well-formed).
\<close>

theorem oneUserPerClerkId_preserved:
  assumes "wf_db (db ctx)" and "oneUserPerClerkId (db ctx)"
  shows "oneUserPerClerkId (db (run ctx evs)) \<and> wf_db (db (run ctx evs))"
  using assms
proof (induction evs arbitrary: ctx)
  case Nil
  then show ?case by (simp add: run_def)
next
  case (Cons ev evs)
  from commit_preserves [OF Cons.prems]
  have "oneUserPerClerkId (db (run (commit ctx ev) evs)) \<and> wf_db (db (run (commit ctx ev) evs))"
    by (intro Cons.IH) simp_all
  then show ?case by (simp add: run_def)
qed

theorem oneUserPerClerkId_preserved_witness:
  "wf_db (db empty_ctx) \<and> oneUserPerClerkId (db empty_ctx) \<and>
   oneUserPerClerkId
     (db (run empty_ctx [UserUpserted u1_created, UserUpserted u1_updated, UserDeleted ''u_2''])) \<and>
   wf_db
     (db (run empty_ctx [UserUpserted u1_created, UserUpserted u1_updated, UserDeleted ''u_2'']))"
proof -
  have 1: "wf_db (db empty_ctx)"
    by (simp add: wf_db_def empty_ctx_def)
  have 2: "oneUserPerClerkId (db empty_ctx)"
    by (simp add: oneUserPerClerkId_def empty_ctx_def)
  from oneUserPerClerkId_preserved [OF 1 2] 1 2 show ?thesis by blast
qed

text \<open>
  C10. \<open>upsertFromClerk\<close> reads the first element of \<open>email_addresses\<close> before
  anything else: on an empty list it fails with a \<^verbatim>\<open>TypeError\<close> whatever the database
  holds, and nothing is committed. On a non-empty list the read does not fail: the outcome
  is that of the lookup followed by the insert branch (no document) or the patch branch (one
  document), and with at most one document per Clerk id the handler succeeds.
\<close>

theorem upsertFromClerk_first_email_access:
  "(email_addresses data = [] \<longrightarrow>
      upsertFromClerk ctx data = Inl TypeError \<and> commit ctx (UserUpserted data) = ctx) \<and>
   (\<forall>e es. email_addresses data = e # es \<longrightarrow>
      upsertFromClerk ctx data \<noteq> Inl TypeError \<and>
      upsertFromClerk ctx data =
        (case userByClerkUserId ctx (id' data) of
           Inl err \<Rightarrow> Inl err
         | Inr None \<Rightarrow> Inr (ctx\<lparr>db := db_insert (db ctx) (userAttributes_of e data)\<rparr>)
         | Inr (Some u) \<Rightarrow>
             Inr (ctx\<lparr>db := (db ctx)\<lparr>users :=
               map (\<lambda>v. if doc_id v = doc_id u then patch_doc (userAttributes_of e data) v else v)
                 (users (db ctx))\<rparr>\<rparr>)) \<and>
      (oneUserPerClerkId (db ctx) \<longrightarrow> (\<exists>ctx'. upsertFromClerk ctx data = Inr ctx')))"
proof (intro conjI impI allI)
  assume "email_addresses data = []"
  then show "upsertFromClerk ctx data = Inl TypeError"
    by (simp add: upsertFromClerk_def)
  then show "commit ctx (UserUpserted data) = ctx"
    by (simp add: commit_def)
next
  fix e es assume em: "email_addresses data = e # es"
  show eq: "upsertFromClerk ctx data =
        (case userByClerkUserId ctx (id' data) of
           Inl err \<Rightarrow> Inl err
         | Inr None \<Rightarrow> Inr (ctx\<lparr>db := db_insert (db ctx) (userAttributes_of e data)\<rparr>)
         | Inr (Some u) \<Rightarrow>
             Inr (ctx\<lparr>db := (db ctx)\<lparr>users :=
               map (\<lambda>v. if doc_id v = doc_id u then patch_doc (userAttributes_of e data) v else v)
                 (users (db ctx))\<rparr>\<rparr>))"
  proof (cases "userByClerkUserId ctx (id' data)")
    case (Inl err)
    with em show ?thesis by (simp add: upsertFromClerk_def)
  next
    case (Inr r)
    show ?thesis
    proof (cases r)
      case None
      with Inr em show ?thesis by (simp add: upsertFromClerk_def)
    next
      case (Some u)
      with Inr have "filter (\<lambda>v. clerkUserId v = id' data) (users (db ctx)) = [u]"
        by (simp add: lookup_Some_iff)
      then have "u \<in> set (users (db ctx))"
        using filter_singleton_mem by fastforce
      with Inr Some em show ?thesis
        by (simp add: upsertFromClerk_def db_patch_Inr)
    qed
  qed
  have "userByClerkUserId ctx (id' data) \<noteq> Inl TypeError"
    using unique_Inl by (fastforce simp: userByClerkUserId_def)
  then show "upsertFromClerk ctx data \<noteq> Inl TypeError"
    unfolding eq by (auto split: sum.splits option.splits)
next
  fix e es assume "email_addresses data = e # es" and "oneUserPerClerkId (db ctx)"
  then show "\<exists>ctx'. upsertFromClerk ctx data = Inr ctx'"
    using upsert_succeeds [of data ctx] by simp
qed

theorem upsertFromClerk_first_email_access_witness:
  "email_addresses no_email = [] \<and>
   upsertFromClerk two_users_ctx no_email = Inl TypeError \<and>
   commit two_users_ctx (UserUpserted no_email) = two_users_ctx \<and>
   email_addresses u1_created = \<lparr>email_address = ''a@example.com''\<rparr> # [] \<and>
   oneUserPerClerkId (db empty_ctx) \<and>
   upsertFromClerk empty_ctx u1_created \<noteq> Inl TypeError \<and>
   upsertFromClerk empty_ctx u1_created = Inr u1_inserted_ctx"
proof -
  have 1: "email_addresses no_email = []"
    by (simp add: no_email_def)
  have 2: "email_addresses u1_created = \<lparr>email_address = ''a@example.com''\<rparr> # []"
    by (simp add: u1_created_def)
  have 3: "oneUserPerClerkId (db empty_ctx)"
    by (simp add: oneUserPerClerkId_def empty_ctx_def)
  have 4: "userByClerkUserId empty_ctx (id' u1_created) = Inr None"
    by (simp add: userByClerkUserId_def byClerkUserId_def empty_ctx_def)
  have 5: "empty_ctx\<lparr>db := db_insert (db empty_ctx)
      (userAttributes_of \<lparr>email_address = ''a@example.com''\<rparr> u1_created)\<rparr> = u1_inserted_ctx"
    by (simp add: db_insert_def userAttributes_of_def empty_ctx_def u1_created_def
        u1_inserted_ctx_def)
  from upsertFromClerk_first_email_access [of no_email two_users_ctx] 1
  have a: "upsertFromClerk two_users_ctx no_email = Inl TypeError"
    and b: "commit two_users_ctx (UserUpserted no_email) = two_users_ctx"
    by blast+
  from upsertFromClerk_first_email_access [of u1_created empty_ctx] 2
  have c: "upsertFromClerk empty_ctx u1_created \<noteq> Inl TypeError"
    and d: "upsertFromClerk empty_ctx u1_created =
      (case userByClerkUserId empty_ctx (id' u1_created) of
         Inl err \<Rightarrow> Inl err
       | Inr None \<Rightarrow> Inr (empty_ctx\<lparr>db := db_insert (db empty_ctx)
           (userAttributes_of \<lparr>email_address = ''a@example.com''\<rparr> u1_created)\<rparr>)
       | Inr (Some u) \<Rightarrow>
           Inr (empty_ctx\<lparr>db := (db empty_ctx)\<lparr>users :=
             map (\<lambda>v. if doc_id v = doc_id u
                then patch_doc (userAttributes_of \<lparr>email_address = ''a@example.com''\<rparr> u1_created) v
                else v)
               (users (db empty_ctx))\<rparr>\<rparr>))"
    by blast+
  from d have e: "upsertFromClerk empty_ctx u1_created = Inr u1_inserted_ctx"
    by (simp add: 4 5)
  from 1 2 3 a b c e show ?thesis by blast
qed

section \<open>Claims about the queries\<close>

text \<open>
  C6. \<open>getRecentUsers\<close> never returns more than 5 documents. On a well-formed table of
  at least 5 documents it returns exactly 5: the last five of the table in its order of
  insertion, newest first, so in strictly descending order of creation time, and every
  document it leaves out was created before every document it returns.
\<close>

theorem getRecentUsers_five_most_recent:
  "length (getRecentUsers ctx) \<le> 5 \<and>
   (wf_db (db ctx) \<and> 5 \<le> length (users (db ctx)) \<longrightarrow>
      length (getRecentUsers ctx) = 5 \<and>
      getRecentUsers ctx = rev (drop (length (users (db ctx)) - 5) (users (db ctx))) \<and>
      sorted_wrt (>) (map creationTime (getRecentUsers ctx)) \<and>
      (\<forall>u \<in> set (users (db ctx)) - set (getRecentUsers ctx).
         \<forall>r \<in> set (getRecentUsers ctx). creationTime u < creationTime r))"
proof (intro conjI impI)
  show "length (getRecentUsers ctx) \<le> 5"
    by (simp add: getRecentUsers_def)
next
  assume a: "wf_db (db ctx) \<and> 5 \<le> length (users (db ctx))"
  let ?xs = "users (db ctx)"
  let ?n = "length ?xs - 5"
  from a have eq: "getRecentUsers ctx = rev (drop ?n ?xs)"
    by (simp add: getRecentUsers_def wf_sort_id take_rev)
  from a have s: "sorted_wrt (\<lambda>x y. creationTime x < creationTime y) (take ?n ?xs @ drop ?n ?xs)"
    by (simp add: wf_db_def sorted_wrt_map)
  show "getRecentUsers ctx = rev (drop ?n ?xs)" by (rule eq)
  from a show "length (getRecentUsers ctx) = 5"
    by (simp add: eq)
  from s show "sorted_wrt (>) (map creationTime (getRecentUsers ctx))"
    by (simp add: eq sorted_wrt_append sorted_wrt_map rev_map [symmetric] sorted_wrt_rev del: append_take_drop_id)
  have "set ?xs - set (drop ?n ?xs) \<subseteq> set (take ?n ?xs)"
    using set_append [of "take ?n ?xs" "drop ?n ?xs"] by auto
  with s show "\<forall>u \<in> set ?xs - set (getRecentUsers ctx).
         \<forall>r \<in> set (getRecentUsers ctx). creationTime u < creationTime r"
    by (auto simp: eq sorted_wrt_append simp del: append_take_drop_id)
qed

theorem getRecentUsers_five_most_recent_witness:
  "wf_db (db six_users_ctx) \<and> 5 \<le> length (users (db six_users_ctx)) \<and>
   getRecentUsers six_users_ctx = map numbered_doc [6, 5, 4, 3, 1] \<and>
   length (getRecentUsers six_users_ctx) = 5"
proof -
  have 1: "wf_db (db six_users_ctx)"
    by (simp add: wf_db_def six_users_ctx_def numbered_doc_def)
  have 2: "5 \<le> length (users (db six_users_ctx))"
    by (simp add: six_users_ctx_def)
  from getRecentUsers_five_most_recent [of six_users_ctx] 1 2
  have "getRecentUsers six_users_ctx =
      rev (drop (length (users (db six_users_ctx)) - 5) (users (db six_users_ctx)))"
    and 3: "length (getRecentUsers six_users_ctx) = 5"
    by blast+
  then have "getRecentUsers six_users_ctx = map numbered_doc [6, 5, 4, 3, 1]"
    by (simp add: six_users_ctx_def)
  with 1 2 3 show ?thesis by blast
qed

text \<open>
  C7. \<open>getCurrentUserOrThrow\<close> throws its error \<^verbatim>\<open>Can't get current user\<close> exactly
  when there is no identity or no user document has the identity's subject as Clerk id, and
  it returns a document exactly when \<open>getCurrentUser\<close> returns that document. With at
  most one user document per Clerk id these are the only cases in which it throws at all.
\<close>

theorem getCurrentUserOrThrow_throws_iff:
  "(getCurrentUserOrThrow ctx = Inl (Error ''Can't get current user'') \<longleftrightarrow>
      (auth ctx = None \<or>
       (\<exists>i. auth ctx = Some i \<and> (\<forall>u \<in> set (users (db ctx)). clerkUserId u \<noteq> subject i)))) \<and>
   (\<forall>u. getCurrentUserOrThrow ctx = Inr u \<longleftrightarrow> getCurrentUser ctx = Inr (Some u)) \<and>
   (oneUserPerClerkId (db ctx) \<longrightarrow>
      ((\<exists>err. getCurrentUserOrThrow ctx = Inl err) \<longleftrightarrow>
         (auth ctx = None \<or>
          (\<exists>i. auth ctx = Some i \<and> (\<forall>u \<in> set (users (db ctx)). clerkUserId u \<noteq> subject i)))) \<and>
      ((\<exists>err. getCurrentUserOrThrow ctx = Inl err) \<or>
       (\<exists>u. getCurrentUserOrThrow ctx = Inr u \<and> getCurrentUser ctx = Inr (Some u))))"
proof (intro conjI impI allI)
  show "getCurrentUserOrThrow ctx = Inl (Error ''Can't get current user'') \<longleftrightarrow>
      (auth ctx = None \<or>
       (\<exists>i. auth ctx = Some i \<and> (\<forall>u \<in> set (users (db ctx)). clerkUserId u \<noteq> subject i)))"
  proof (cases "auth ctx")
    case None
    then show ?thesis by (simp add: getCurrentUserOrThrow_def getCurrentUser_def)
  next
    case (Some i)
    have "userByClerkUserId ctx (subject i) \<noteq> Inl (Error ''Can't get current user'')"
      using unique_Inl by (fastforce simp: userByClerkUserId_def)
    with Some show ?thesis
      by (auto simp: getCurrentUserOrThrow_def getCurrentUser_def lookup_None_iff [symmetric]
          split: sum.splits option.splits)
  qed
next
  fix u show "getCurrentUserOrThrow ctx = Inr u \<longleftrightarrow> getCurrentUser ctx = Inr (Some u)"
    by (auto simp: getCurrentUserOrThrow_def split: sum.splits option.splits)
next
  assume one: "oneUserPerClerkId (db ctx)"
  show "(\<exists>err. getCurrentUserOrThrow ctx = Inl err) \<longleftrightarrow>
         (auth ctx = None \<or>
          (\<exists>i. auth ctx = Some i \<and> (\<forall>u \<in> set (users (db ctx)). clerkUserId u \<noteq> subject i)))"
  proof (cases "auth ctx")
    case None
    then show ?thesis by (simp add: getCurrentUserOrThrow_def getCurrentUser_def)
  next
    case (Some i)
    from lookup_total [OF one, of "subject i"] Some show ?thesis
      by (auto simp: getCurrentUserOrThrow_def getCurrentUser_def lookup_None_iff [symmetric])
  qed
next
  assume one: "oneUserPerClerkId (db ctx)"
  show "(\<exists>err. getCurrentUserOrThrow ctx = Inl err) \<or>
       (\<exists>u. getCurrentUserOrThrow ctx = Inr u \<and> getCurrentUser ctx = Inr (Some u))"
    by (auto simp: getCurrentUserOrThrow_def split: sum.splits option.splits)
qed

theorem getCurrentUserOrThrow_throws_iff_witness:
  "oneUserPerClerkId (db signed_in_ctx) \<and>
   getCurrentUserOrThrow signed_in_ctx = Inr u2_doc \<and>
   getCurrentUser signed_in_ctx = Inr (Some u2_doc) \<and>
   \<not> (\<exists>err. getCurrentUserOrThrow signed_in_ctx = Inl err) \<and>
   oneUserPerClerkId (db two_users_ctx) \<and>
   getCurrentUserOrThrow two_users_ctx = Inl (Error ''Can't get current user'')"
proof -
  have 1: "oneUserPerClerkId (db signed_in_ctx)"
    by (simp add: oneUserPerClerkId_def signed_in_ctx_def two_users_ctx_def u1_doc_def u2_doc_def)
  have 2: "oneUserPerClerkId (db two_users_ctx)"
    by (simp add: oneUserPerClerkId_def two_users_ctx_def u1_doc_def u2_doc_def)
  have 3: "getCurrentUser signed_in_ctx = Inr (Some u2_doc)"
    by (simp add: getCurrentUser_def userByClerkUserId_def byClerkUserId_def signed_in_ctx_def
        two_users_ctx_def u1_doc_def u2_doc_def)
  have 4: "auth two_users_ctx = None"
    by (simp add: two_users_ctx_def)
  from getCurrentUserOrThrow_throws_iff [of signed_in_ctx] 3
  have a: "getCurrentUserOrThrow signed_in_ctx = Inr u2_doc"
    by blast
  then have b: "\<not> (\<exists>err. getCurrentUserOrThrow signed_in_ctx = Inl err)"
    by simp
  from getCurrentUserOrThrow_throws_iff [of two_users_ctx] 4
  have c: "getCurrentUserOrThrow two_users_ctx = Inl (Error ''Can't get current user'')"
    by blast
  from 1 2 3 a b c show ?thesis by blast
qed

text \<open>
  C8. \<open>current\<close> is \<open>getCurrentUser\<close>. It returns null, not an error, when there is no
  identity or when no user document has the identity's subject as Clerk id. Otherwise, with
  at most one user document per Clerk id, it returns the document with that Clerk id, which
  is what the \<open>byClerkUserId\<close> index holds for the subject.
\<close>

theorem getCurrentUser_null_or_record:
  "current ctx = getCurrentUser ctx \<and>
   (auth ctx = None \<or>
      (\<exists>i. auth ctx = Some i \<and> (\<forall>u \<in> set (users (db ctx)). clerkUserId u \<noteq> subject i))
    \<longrightarrow> getCurrentUser ctx = Inr None) \<and>
   (\<forall>i u. auth ctx = Some i \<and> oneUserPerClerkId (db ctx) \<and>
          u \<in> set (users (db ctx)) \<and> clerkUserId u = subject i
    \<longrightarrow> getCurrentUser ctx = Inr (Some u) \<and> byClerkUserId (db ctx) (subject i) = [u])"
proof (intro conjI impI allI)
  show "current ctx = getCurrentUser ctx" by (simp add: current_def)
next
  assume "auth ctx = None \<or>
      (\<exists>i. auth ctx = Some i \<and> (\<forall>u \<in> set (users (db ctx)). clerkUserId u \<noteq> subject i))"
  then show "getCurrentUser ctx = Inr None"
    by (auto simp: getCurrentUser_def lookup_None_iff)
next
  fix i u
  assume a: "auth ctx = Some i \<and> oneUserPerClerkId (db ctx) \<and>
          u \<in> set (users (db ctx)) \<and> clerkUserId u = subject i"
  then have l: "userByClerkUserId ctx (subject i) = Inr (Some u)"
    using lookup_the_match by blast
  with a show "getCurrentUser ctx = Inr (Some u)"
    by (simp add: getCurrentUser_def)
  from l show "byClerkUserId (db ctx) (subject i) = [u]"
    by (simp add: lookup_Some_iff byClerkUserId_def)
qed

theorem getCurrentUser_null_or_record_witness:
  "auth two_users_ctx = None \<and> current two_users_ctx = Inr None \<and>
   auth signed_in_ctx = Some \<lparr>subject = ''u_2''\<rparr> \<and> oneUserPerClerkId (db signed_in_ctx) \<and>
   u2_doc \<in> set (users (db signed_in_ctx)) \<and> clerkUserId u2_doc = ''u_2'' \<and>
   current signed_in_ctx = Inr (Some u2_doc)"
proof -
  have 1: "auth two_users_ctx = None"
    by (simp add: two_users_ctx_def)
  have 2: "auth signed_in_ctx = Some \<lparr>subject = ''u_2''\<rparr>"
    by (simp add: signed_in_ctx_def)
  have 3: "oneUserPerClerkId (db signed_in_ctx)"
    by (simp add: oneUserPerClerkId_def signed_in_ctx_def two_users_ctx_def u1_doc_def u2_doc_def)
  have 4: "u2_doc \<in> set (users (db signed_in_ctx))"
    by (simp add: signed_in_ctx_def two_users_ctx_def)
  have 5: "clerkUserId u2_doc = subject \<lparr>subject = ''u_2''\<rparr>"
    by (simp add: u2_doc_def)
  from getCurrentUser_null_or_record [of two_users_ctx] 1
  have a: "current two_users_ctx = Inr None"
    by simp
  from getCurrentUser_null_or_record [of signed_in_ctx] 2 3 4 5
  have "current signed_in_ctx = getCurrentUser signed_in_ctx"
    and "getCurrentUser signed_in_ctx = Inr (Some u2_doc)"
    by blast+
  then have b: "current signed_in_ctx = Inr (Some u2_doc)"
    by simp
  from 5 have c: "clerkUserId u2_doc = ''u_2''"
    by simp
  from 1 2 3 4 a b c show ?thesis by blast
qed

end
